theory Spec2Isabelle
  imports Complex_Main "HOL-Library.Sublist"
begin

section \<open>Arc links: packages/arcs/src/links.ts\<close>

text \<open>
  A shallow embedding of \<^verbatim>\<open>computeArcLink\<close>, \<^verbatim>\<open>useArcLinks\<close> and
  \<^verbatim>\<open>useArcLinkLabels\<close>. A JavaScript \<^verbatim>\<open>number\<close> is read as a \<^typ>\<open>real\<close> and
  \<^verbatim>\<open>Math.PI\<close> as \<^term>\<open>pi\<close>: rounding, infinities and \<^verbatim>\<open>NaN\<close> are outside the
  model. \<^verbatim>\<open>useMemo\<close> and \<^verbatim>\<open>useCallback\<close> only cache a value, so a memoised
  expression is modelled by the expression itself.
\<close>

subsection \<open>Types imported from ./types\<close>

text \<open>
  Modelled from the spec: \<^verbatim>\<open>./types\<close> is not among the sources. Section 3 of the
  spec gives \<^verbatim>\<open>Point\<close> as \<^verbatim>\<open>{x, y}\<close>.
\<close>

record Point =
  x :: real
  y :: real

text \<open>
  Modelled from the spec: \<^verbatim>\<open>Arc\<close> of \<^verbatim>\<open>./types\<close>, given in section 3 as
  \<^verbatim>\<open>{startAngle, endAngle, innerRadius, outerRadius}\<close>, angles in radians.
\<close>

record Arc =
  startAngle :: real
  endAngle :: real
  innerRadius :: real
  outerRadius :: real

subsection \<open>Helpers imported from ./utils and @nivo/core\<close>

text \<open>
  Modelled from the spec: \<^verbatim>\<open>getNormalizedAngle\<close> of \<^verbatim>\<open>./utils\<close> is not among the
  sources. Section 4.1: the angle modulo \<open>2\<pi>\<close>, mapped into \<open>[0, 2\<pi>)\<close> regardless of
  sign (negative inputs wrap forward).
\<close>

definition getNormalizedAngle :: "real \<Rightarrow> real" where
  "getNormalizedAngle angle = angle - of_int \<lfloor>angle / (pi * 2)\<rfloor> * (pi * 2)"

text \<open>
  Modelled from the spec: \<^verbatim>\<open>positionFromAngle\<close> of \<^verbatim>\<open>@nivo/core\<close> is not among
  the sources. Section 6: the polar-to-Cartesian conversion
  \<^verbatim>\<open>(angleRadians, radius) -> Point\<close> in the standard convention.
\<close>

definition positionFromAngle :: "real \<Rightarrow> real \<Rightarrow> Point" where
  "positionFromAngle angle distance =
     \<lparr>x = cos angle * distance, y = sin angle * distance\<rparr>"

text \<open>
  Modelled from the spec: \<^verbatim>\<open>radiansToDegrees\<close> of \<^verbatim>\<open>@nivo/core\<close> is not among
  the sources. Section 4.3 says the span is "converted to degrees".
\<close>

definition radiansToDegrees :: "real \<Rightarrow> real" where
  "radiansToDegrees radians = (180 * radians) / pi"

subsection \<open>computeArcLink\<close>

datatype Side = Before | After

text \<open>
  \<^verbatim>\<open>points: [Point, Point, Point]\<close> is a tuple of exactly three points, modelled by a
  triple; \<open>points0\<close>, \<open>points1\<close> and \<open>points2\<close> read \<^verbatim>\<open>points[0]\<close>, \<^verbatim>\<open>points[1]\<close>
  and \<^verbatim>\<open>points[2]\<close>.
\<close>

record ArcLink =
  side :: Side
  points :: "Point \<times> Point \<times> Point"

definition points0 :: "Point \<times> Point \<times> Point \<Rightarrow> Point" where
  "points0 ps = fst ps"

definition points1 :: "Point \<times> Point \<times> Point \<Rightarrow> Point" where
  "points1 ps = fst (snd ps)"

definition points2 :: "Point \<times> Point \<times> Point \<Rightarrow> Point" where
  "points2 ps = snd (snd ps)"

definition computeArcLink :: "Arc \<Rightarrow> real \<Rightarrow> real \<Rightarrow> real \<Rightarrow> ArcLink" where
  "computeArcLink arc offset diagonalLength straightLength =
     (let centerAngle = getNormalizedAngle
            (startAngle arc + (endAngle arc - startAngle arc) / 2 - pi / 2);
          point0 = positionFromAngle centerAngle (outerRadius arc + offset);
          point1 = positionFromAngle centerAngle (outerRadius arc + offset + diagonalLength)
      in if centerAngle < pi / 2 \<or> centerAngle > pi * 1.5
         then \<lparr>side = After,
               points = (point0, point1,
                         \<lparr>x = x point1 + straightLength, y = y point1\<rparr>)\<rparr>
         else \<lparr>side = Before,
               points = (point0, point1,
                         \<lparr>x = x point1 - straightLength, y = y point1\<rparr>)\<rparr>)"

subsection \<open>useArcLinks\<close>

text \<open>
  Modelled from the spec: \<^verbatim>\<open>DatumWithArc\<close> of \<^verbatim>\<open>./types\<close>. Section 3: a datum
  "must carry an Arc". \<^verbatim>\<open>Datum extends DatumWithArc\<close> is the record scheme
  \<open>'m DatumWithArc_scheme\<close>: any further fields sit in the extension \<open>'m\<close>.
\<close>

record DatumWithArc =
  arc :: Arc

record 'd ArcLinkWithDatum = ArcLink +
  data :: 'd

text \<open>
  The elements \<^verbatim>\<open>useArcLinks\<close> returns are objects built by spreading, so they are
  modelled by their own properties: a map from property names to values. A value is
  one of the three a link carries, or a value \<open>'e\<close> of the caller's
  \<^verbatim>\<open>ExtraProps\<close>.
\<close>

datatype ('d, 'e) PropValue =
    SideValue Side
  | PointsValue "Point \<times> Point \<times> Point"
  | DataValue 'd
  | ExtraValue 'e

type_synonym ('d, 'e) Props = "string \<rightharpoonup> ('d, 'e) PropValue"

text \<open>
  \<^verbatim>\<open>...link\<close>: the own properties of an \<^verbatim>\<open>ArcLinkWithDatum\<close>, which is always
  built as \<^verbatim>\<open>{...computeArcLink(...), data: datum}\<close>.
\<close>

definition spreadLink :: "'d ArcLinkWithDatum \<Rightarrow> ('d, 'e) Props" where
  "spreadLink link =
     [''side'' \<mapsto> SideValue (side link),
      ''points'' \<mapsto> PointsValue (points link),
      ''data'' \<mapsto> DataValue (data link)]"

text \<open>
  The first \<^verbatim>\<open>useMemo\<close> of \<^verbatim>\<open>useArcLinks\<close>: filter, then one link per eligible
  datum.
\<close>

definition links ::
  "'m DatumWithArc_scheme list \<Rightarrow> real \<Rightarrow> real \<Rightarrow> real \<Rightarrow> real
     \<Rightarrow> 'm DatumWithArc_scheme ArcLinkWithDatum list" where
  "links dataArray skipAngle offset diagonalLength straightLength =
     map (\<lambda>datum.
            (let link = computeArcLink (arc datum) offset diagonalLength straightLength
             in \<lparr>side = side link, points = points link, data = datum\<rparr>))
         (filter (\<lambda>datum.
                    \<bar>radiansToDegrees (endAngle (arc datum) - startAngle (arc datum))\<bar>
                      \<ge> skipAngle)
                 dataArray)"

text \<open>
  An optional parameter is an \<open>option\<close>: \<open>None\<close> is the omitted (\<^verbatim>\<open>undefined\<close>)
  argument, for which the destructuring takes the default. The parameter \<^verbatim>\<open>data\<close> is
  called \<open>dataArray\<close> here, \<open>data\<close> being the field of a link.
\<close>

definition useArcLinks ::
  "'m DatumWithArc_scheme list \<Rightarrow> real option \<Rightarrow> real option \<Rightarrow> real \<Rightarrow> real
     \<Rightarrow> ('m DatumWithArc_scheme ArcLinkWithDatum
            \<Rightarrow> ('m DatumWithArc_scheme, 'e) Props) option
     \<Rightarrow> ('m DatumWithArc_scheme, 'e) Props list" where
  "useArcLinks dataArray skipAngleArg offsetArg diagonalLength straightLength
       computeExtraPropsArg =
     (let skipAngle = (case skipAngleArg of None \<Rightarrow> 0 | Some v \<Rightarrow> v);
          offset = (case offsetArg of None \<Rightarrow> 0.5 | Some v \<Rightarrow> v);
          computeExtraProps =
            (case computeExtraPropsArg of None \<Rightarrow> (\<lambda>_. Map.empty) | Some f \<Rightarrow> f)
      in map (\<lambda>link. computeExtraProps link ++ spreadLink link)
             (links dataArray skipAngle offset diagonalLength straightLength))"

subsection \<open>useArcLinkLabels\<close>

datatype TextAnchor = Start | End

text \<open>The values of the properties a label adds: numbers, strings and the anchor.\<close>

datatype LabelValue =
    NumberValue real
  | StringValue string
  | TextAnchorValue TextAnchor

text \<open>
  The \<^verbatim>\<open>computeExtraProps\<close> callback of \<^verbatim>\<open>useArcLinkLabels\<close>. \<^verbatim>\<open>getLabel\<close>,
  \<^verbatim>\<open>getLinkColor\<close> and \<^verbatim>\<open>getTextColor\<close> come from \<^verbatim>\<open>usePropertyAccessor\<close> and
  \<^verbatim>\<open>useInheritedColor\<close> of other packages and are parameters.
\<close>

definition labelExtraProps ::
  "real \<Rightarrow> ('d \<Rightarrow> string) \<Rightarrow> ('d \<Rightarrow> string) \<Rightarrow> ('d \<Rightarrow> string)
     \<Rightarrow> 'd ArcLinkWithDatum \<Rightarrow> ('d, LabelValue) Props" where
  "labelExtraProps textOffset getLabel getLinkColor getTextColor link =
     (let position = \<lparr>x = x (points2 (points link)), y = y (points2 (points link))\<rparr>;
          (position, textAnchor) =
            (if side link = Before
             then (position\<lparr>x := x position - textOffset\<rparr>, End)
             else (position\<lparr>x := x position + textOffset\<rparr>, Start))
      in [''x'' \<mapsto> ExtraValue (NumberValue (x position)),
          ''y'' \<mapsto> ExtraValue (NumberValue (y position)),
          ''label'' \<mapsto> ExtraValue (StringValue (getLabel (data link))),
          ''linkColor'' \<mapsto> ExtraValue (StringValue (getLinkColor (data link))),
          ''textAnchor'' \<mapsto> ExtraValue (TextAnchorValue textAnchor),
          ''textColor'' \<mapsto> ExtraValue (StringValue (getTextColor (data link)))])"

definition useArcLinkLabels ::
  "'m DatumWithArc_scheme list \<Rightarrow> real option \<Rightarrow> real option \<Rightarrow> real \<Rightarrow> real
     \<Rightarrow> real option
     \<Rightarrow> ('m DatumWithArc_scheme \<Rightarrow> string)
     \<Rightarrow> ('m DatumWithArc_scheme \<Rightarrow> string)
     \<Rightarrow> ('m DatumWithArc_scheme \<Rightarrow> string)
     \<Rightarrow> ('m DatumWithArc_scheme, LabelValue) Props list" where
  "useArcLinkLabels dataArray skipAngle offset diagonalLength straightLength textOffsetArg
       getLabel getLinkColor getTextColor =
     (let textOffset = (case textOffsetArg of None \<Rightarrow> 0 | Some v \<Rightarrow> v)
      in useArcLinks dataArray skipAngle offset diagonalLength straightLength
           (Some (labelExtraProps textOffset getLabel getLinkColor getTextColor)))"

subsection \<open>useArcLinks over an explicit store\<close>

text \<open>
  Whether \<^verbatim>\<open>useArcLinks\<close> writes to its inputs, and whether an output element holds
  the input datum itself or a copy of it, cannot be asked of a function from values to
  values. For these questions lines 92 to 119 of the source are modelled a second
  time, over a store. The store is the list of the objects allocated so far; the
  address of an object is its index, and \<open>alloc\<close> appends a new object. There are
  three kinds of objects: a datum, an array of addresses, and an object with named
  properties. A property whose value is an object holds its address (\<open>Reference\<close>);
  \<^verbatim>\<open>side\<close> and \<^verbatim>\<open>points\<close>, which \<^verbatim>\<open>computeArcLink\<close> creates anew for each link, are
  stored by value.
\<close>

type_synonym addr = nat

datatype 'e StoredValue =
    StoredSide Side
  | StoredPoints "Point \<times> Point \<times> Point"
  | Reference addr
  | StoredExtra 'e

datatype ('m, 'e) HeapObject =
    DatumObject "'m DatumWithArc_scheme"
  | ArrayObject "addr list"
  | PropsObject "string \<rightharpoonup> 'e StoredValue"

type_synonym ('m, 'e) Heap = "('m, 'e) HeapObject list"

text \<open>A new object gets the next free address; no existing object is touched.\<close>

definition alloc :: "('m, 'e) Heap \<Rightarrow> ('m, 'e) HeapObject \<Rightarrow> addr \<times> ('m, 'e) Heap" where
  "alloc heap obj = (length heap, heap @ [obj])"

text \<open>
  Reading a datum, an array or an object with properties at an address. An address
  that holds no object of that kind gives \<open>None\<close>: the \<^verbatim>\<open>TypeError\<close> of a property
  access on a value of the wrong shape, which the types of the source exclude.
\<close>

definition readDatum :: "('m, 'e) Heap \<Rightarrow> addr \<Rightarrow> 'm DatumWithArc_scheme option" where
  "readDatum heap a =
     (if a < length heap
      then (case heap ! a of DatumObject datum \<Rightarrow> Some datum | _ \<Rightarrow> None)
      else None)"

definition readArray :: "('m, 'e) Heap \<Rightarrow> addr \<Rightarrow> addr list option" where
  "readArray heap a =
     (if a < length heap
      then (case heap ! a of ArrayObject elements \<Rightarrow> Some elements | _ \<Rightarrow> None)
      else None)"

definition readProps :: "('m, 'e) Heap \<Rightarrow> addr \<Rightarrow> (string \<rightharpoonup> 'e StoredValue) option" where
  "readProps heap a =
     (if a < length heap
      then (case heap ! a of PropsObject props \<Rightarrow> Some props | _ \<Rightarrow> None)
      else None)"

text \<open>
  \<^verbatim>\<open>data.filter(datum => ...)\<close>: it reads each datum and keeps the addresses of those
  that pass.
\<close>

fun filterStore :: "('m, 'e) Heap \<Rightarrow> real \<Rightarrow> addr list \<Rightarrow> addr list option" where
  "filterStore heap skipAngle [] = Some []"
| "filterStore heap skipAngle (r # rs) =
     (case readDatum heap r of
        None \<Rightarrow> None
      | Some datum \<Rightarrow>
          (case filterStore heap skipAngle rs of
             None \<Rightarrow> None
           | Some kept \<Rightarrow>
               Some (if \<bar>radiansToDegrees (endAngle (arc datum) - startAngle (arc datum))\<bar>
                          \<ge> skipAngle
                     then r # kept else kept)))"

text \<open>
  \<^verbatim>\<open>.map(datum => ({...computeArcLink(datum.arc, ...), data: datum}))\<close>: for each
  address kept, a new object with the link's \<^verbatim>\<open>side\<close> and \<^verbatim>\<open>points\<close> and, under
  \<^verbatim>\<open>data\<close>, the address of the datum.
\<close>

fun mapLinksStore ::
  "('m, 'e) Heap \<Rightarrow> real \<Rightarrow> real \<Rightarrow> real \<Rightarrow> addr list
     \<Rightarrow> (addr list \<times> ('m, 'e) Heap) option" where
  "mapLinksStore heap offset diagonalLength straightLength [] = Some ([], heap)"
| "mapLinksStore heap offset diagonalLength straightLength (r # rs) =
     (case readDatum heap r of
        None \<Rightarrow> None
      | Some datum \<Rightarrow>
          (let link = computeArcLink (arc datum) offset diagonalLength straightLength;
               (a, heap1) = alloc heap
                  (PropsObject [''side'' \<mapsto> StoredSide (side link),
                                ''points'' \<mapsto> StoredPoints (points link),
                                ''data'' \<mapsto> Reference r])
           in (case mapLinksStore heap1 offset diagonalLength straightLength rs of
                 None \<Rightarrow> None
               | Some (rest, heap2) \<Rightarrow> Some (a # rest, heap2))))"

text \<open>
  \<^verbatim>\<open>links.map(link => ({...computeExtraProps(link), ...link}))\<close>. The callback is the
  caller's code: it is given the store and the address of the link, and returns the
  properties of the object it returns together with the store as it leaves it. It
  runs first; the link is read after it, and a new object takes the properties of
  both, the link's last.
\<close>

fun mapMergeStore ::
  "(('m, 'e) Heap \<Rightarrow> addr \<Rightarrow> (string \<rightharpoonup> 'e StoredValue) \<times> ('m, 'e) Heap)
     \<Rightarrow> ('m, 'e) Heap \<Rightarrow> addr list \<Rightarrow> (addr list \<times> ('m, 'e) Heap) option" where
  "mapMergeStore computeExtraProps heap [] = Some ([], heap)"
| "mapMergeStore computeExtraProps heap (l # ls) =
     (let (extra, heap1) = computeExtraProps heap l
      in (case readProps heap1 l of
            None \<Rightarrow> None
          | Some linkProps \<Rightarrow>
              (let (a, heap2) = alloc heap1 (PropsObject (extra ++ linkProps))
               in (case mapMergeStore computeExtraProps heap2 ls of
                     None \<Rightarrow> None
                   | Some (rest, heap3) \<Rightarrow> Some (a # rest, heap3)))))"

text \<open>
  The whole of \<^verbatim>\<open>useArcLinks\<close>: \<open>dataArray\<close> is the address of the input array. The
  arrays that \<^verbatim>\<open>filter\<close> and the two \<^verbatim>\<open>map\<close> calls return are new objects. The result
  is the address of the last one, with the store.
\<close>

definition useArcLinksStore ::
  "('m, 'e) Heap \<Rightarrow> addr \<Rightarrow> real option \<Rightarrow> real option \<Rightarrow> real \<Rightarrow> real
     \<Rightarrow> (('m, 'e) Heap \<Rightarrow> addr \<Rightarrow> (string \<rightharpoonup> 'e StoredValue) \<times> ('m, 'e) Heap) option
     \<Rightarrow> (addr \<times> ('m, 'e) Heap) option" where
  "useArcLinksStore heap dataArray skipAngleArg offsetArg diagonalLength straightLength
       computeExtraPropsArg =
     (let skipAngle = (case skipAngleArg of None \<Rightarrow> 0 | Some v \<Rightarrow> v);
          offset = (case offsetArg of None \<Rightarrow> 0.5 | Some v \<Rightarrow> v);
          computeExtraProps =
            (case computeExtraPropsArg of
               None \<Rightarrow> (\<lambda>h _. (Map.empty, h)) | Some f \<Rightarrow> f)
      in (case readArray heap dataArray of
            None \<Rightarrow> None
          | Some elements \<Rightarrow>
          (case filterStore heap skipAngle elements of
            None \<Rightarrow> None
          | Some kept \<Rightarrow>
          (let (filtered, heap1) = alloc heap (ArrayObject kept)
           in (case mapLinksStore heap1 offset diagonalLength straightLength kept of
                 None \<Rightarrow> None
               | Some (linkRefs, heap2) \<Rightarrow>
               (let (linksArray, heap3) = alloc heap2 (ArrayObject linkRefs)
                in (case mapMergeStore computeExtraProps heap3 linkRefs of
                      None \<Rightarrow> None
                    | Some (merged, heap4) \<Rightarrow>
                        Some (alloc heap4 (ArrayObject merged)))))))))"

text \<open>
  The value read through the store of an object stored there: a reference is replaced
  by the datum it points to. This takes an output object of \<open>useArcLinksStore\<close> to an
  output element of \<open>useArcLinks\<close>.
\<close>

definition derefValue ::
  "('m, 'e) Heap \<Rightarrow> 'e StoredValue \<Rightarrow> ('m DatumWithArc_scheme, 'e) PropValue" where
  "derefValue heap v =
     (case v of
        StoredSide s \<Rightarrow> SideValue s
      | StoredPoints ps \<Rightarrow> PointsValue ps
      | Reference a \<Rightarrow> DataValue (the (readDatum heap a))
      | StoredExtra e \<Rightarrow> ExtraValue e)"

definition derefProps ::
  "('m, 'e) Heap \<Rightarrow> (string \<rightharpoonup> 'e StoredValue) \<Rightarrow> ('m DatumWithArc_scheme, 'e) Props" where
  "derefProps heap props = (\<lambda>k. map_option (derefValue heap) (props k))"

section \<open>The model of getNormalizedAngle meets its contract\<close>

text \<open>
  Section 4.1 and section 8 of the spec ask for a value in \<open>[0, 2\<pi>)\<close> that does not
  change when a multiple of \<open>2\<pi>\<close> is added to the angle.
\<close>

lemma getNormalizedAngle_range:
  "0 \<le> getNormalizedAngle angle \<and> getNormalizedAngle angle < pi * 2"
proof -
  have pos: "0 < pi * 2" by simp
  have lo: "of_int \<lfloor>angle / (pi * 2)\<rfloor> \<le> angle / (pi * 2)" by (rule of_int_floor_le)
  have hi: "angle / (pi * 2) < of_int \<lfloor>angle / (pi * 2)\<rfloor> + 1" by linarith
  from lo have "of_int \<lfloor>angle / (pi * 2)\<rfloor> * (pi * 2) \<le> angle"
    by (simp only: pos_le_divide_eq [OF pos])
  moreover from hi have "angle < (of_int \<lfloor>angle / (pi * 2)\<rfloor> + 1) * (pi * 2)"
    by (simp only: pos_divide_less_eq [OF pos])
  ultimately show ?thesis
    by (simp add: getNormalizedAngle_def algebra_simps)
qed

lemma getNormalizedAngle_periodic:
  "getNormalizedAngle (angle + of_int k * (pi * 2)) = getNormalizedAngle angle"
proof -
  have "(angle + of_int k * (pi * 2)) / (pi * 2) = angle / (pi * 2) + of_int k"
    by (simp add: add_divide_distrib)
  then have "\<lfloor>(angle + of_int k * (pi * 2)) / (pi * 2)\<rfloor> = \<lfloor>angle / (pi * 2)\<rfloor> + k"
    by simp
  then show ?thesis
    by (simp add: getNormalizedAngle_def algebra_simps)
qed

section \<open>Properties of computeArcLink\<close>

lemma computeArcLink_side:
  "side (computeArcLink a off dl sl) =
     (if getNormalizedAngle (startAngle a + (endAngle a - startAngle a) / 2 - pi / 2) < pi / 2
         \<or> getNormalizedAngle (startAngle a + (endAngle a - startAngle a) / 2 - pi / 2)
             > pi * 1.5
      then After else Before)"
  by (simp add: computeArcLink_def Let_def)

lemma computeArcLink_points:
  "points (computeArcLink a off dl sl) =
     (let mid = getNormalizedAngle
                  (startAngle a + (endAngle a - startAngle a) / 2 - pi / 2);
          p1 = positionFromAngle mid (outerRadius a + off + dl)
      in (positionFromAngle mid (outerRadius a + off), p1,
          \<lparr>x = (if mid < pi / 2 \<or> mid > pi * 1.5 then x p1 + sl else x p1 - sl),
           y = y p1\<rparr>))"
  by (simp add: computeArcLink_def Let_def)

lemma computeArcLink_point2_x:
  "x (points2 (points (computeArcLink a off dl sl))) =
     (if side (computeArcLink a off dl sl) = After
      then x (points1 (points (computeArcLink a off dl sl))) + sl
      else x (points1 (points (computeArcLink a off dl sl))) - sl)"
  by (simp add: computeArcLink_def points2_def points1_def Let_def)

text \<open>
  Claim C5. For every arc and parameters, \<^verbatim>\<open>computeArcLink\<close> takes as bisecting angle
  \<open>getNormalizedAngle (startAngle + (endAngle - startAngle) / 2 - \<pi> / 2)\<close>; \<^verbatim>\<open>points[0]\<close>
  is \<open>positionFromAngle\<close> of that angle at radius \<open>outerRadius + offset\<close> and
  \<^verbatim>\<open>points[1]\<close> is \<open>positionFromAngle\<close> of the same angle at radius
  \<open>outerRadius + offset + diagonalLength\<close>.
\<close>

theorem computeArcLink_bisecting_points:
  "points0 (points (computeArcLink a off dl sl)) =
     positionFromAngle
       (getNormalizedAngle (startAngle a + (endAngle a - startAngle a) / 2 - pi / 2))
       (outerRadius a + off)
   \<and> points1 (points (computeArcLink a off dl sl)) =
     positionFromAngle
       (getNormalizedAngle (startAngle a + (endAngle a - startAngle a) / 2 - pi / 2))
       (outerRadius a + off + dl)"
  by (simp add: computeArcLink_points points0_def points1_def Let_def)

text \<open>
  Claim C7. For every arc and parameters the last segment of the link is horizontal:
  \<^verbatim>\<open>points[2].y = points[1].y\<close>, and \<^verbatim>\<open>points[2].x\<close> is \<^verbatim>\<open>points[1].x\<close> plus
  \<open>straightLength\<close> on the side \<open>After\<close>, minus \<open>straightLength\<close> on the side
  \<open>Before\<close>.
\<close>

theorem computeArcLink_last_segment_horizontal:
  "y (points2 (points (computeArcLink a off dl sl)))
     = y (points1 (points (computeArcLink a off dl sl)))
   \<and> x (points2 (points (computeArcLink a off dl sl))) =
       (case side (computeArcLink a off dl sl) of
          After \<Rightarrow> x (points1 (points (computeArcLink a off dl sl))) + sl
        | Before \<Rightarrow> x (points1 (points (computeArcLink a off dl sl))) - sl)"
  by (simp add: computeArcLink_def points2_def points1_def Let_def)

subsection \<open>Side classification\<close>

lemma getNormalizedAngle_neg_half_pi: "getNormalizedAngle (- (pi / 2)) = pi * 1.5"
proof -
  have "- (pi / 2) / (pi * 2) = - (1 / 4 :: real)" by simp
  moreover have "\<lfloor>- (1 / 4 :: real)\<rfloor> = -1" by linarith
  ultimately show ?thesis by (simp add: getNormalizedAngle_def)
qed

lemma symmetric_centerAngle:
  assumes "startAngle a = - (spn / 2)" and "endAngle a = spn / 2"
  shows "getNormalizedAngle (startAngle a + (endAngle a - startAngle a) / 2 - pi / 2)
           = pi * 1.5"
proof -
  have "startAngle a + (endAngle a - startAngle a) / 2 - pi / 2 = - (pi / 2)"
    using assms by simp
  then show ?thesis
    by (simp only: getNormalizedAngle_neg_half_pi)
qed

lemma getNormalizedAngle_neg_quarter_pi: "getNormalizedAngle (- (pi / 4)) = pi * 1.75"
proof -
  have "- (pi / 4) / (pi * 2) = - (1 / 8 :: real)" by simp
  moreover have "\<lfloor>- (1 / 8 :: real)\<rfloor> = -1" by linarith
  ultimately show ?thesis by (simp add: getNormalizedAngle_def)
qed

text \<open>
  The arc of the spec's end-to-end scenario, from \<open>0\<close> to \<open>\<pi>/2\<close>: its bisecting angle
  is \<open>1.75\<pi>\<close>, beyond \<open>1.5\<pi>\<close>, so the link is on the side \<open>After\<close>.
\<close>

lemma quarter_arc_side:
  "side (computeArcLink
           \<lparr>startAngle = 0, endAngle = pi / 2, innerRadius = 0, outerRadius = 100\<rparr>
           off dl sl) = After"
proof -
  have "(0::real) + (pi / 2 - 0) / 2 - pi / 2 = - (pi / 4)" by simp
  then show ?thesis
    by (simp add: computeArcLink_side getNormalizedAngle_neg_quarter_pi)
qed

text \<open>
  Claim C2. With \<open>mid\<close> the normalized bisecting angle, \<^verbatim>\<open>computeArcLink\<close> gives side
  \<open>After\<close> and \<^verbatim>\<open>points[2].x = points[1].x + straightLength\<close> exactly when
  \<open>mid < \<pi>/2\<close> or \<open>mid > 1.5\<pi>\<close>, and otherwise side \<open>Before\<close> and
  \<^verbatim>\<open>points[2].x = points[1].x - straightLength\<close>. The two boundary angles \<open>\<pi>/2\<close> and
  \<open>1.5\<pi>\<close> are on the \<open>Before\<close> side, and a symmetric arc (\<open>startAngle = -span/2\<close>,
  \<open>endAngle = span/2\<close>) has \<open>mid = 1.5\<pi>\<close>, hence side \<open>Before\<close>.
\<close>

theorem computeArcLink_side_classification:
  "(let mid = getNormalizedAngle (startAngle a + (endAngle a - startAngle a) / 2 - pi / 2);
        link = computeArcLink a off dl sl
    in (if mid < pi / 2 \<or> mid > pi * 1.5
        then side link = After
             \<and> x (points2 (points link)) = x (points1 (points link)) + sl
        else side link = Before
             \<and> x (points2 (points link)) = x (points1 (points link)) - sl)
      \<and> (mid = pi / 2 \<or> mid = pi * 1.5 \<longrightarrow> side link = Before)
      \<and> (startAngle a = - (spn / 2) \<and> endAngle a = spn / 2 \<longrightarrow>
            mid = pi * 1.5 \<and> side link = Before
            \<and> x (points2 (points link)) = x (points1 (points link)) - sl))"
proof -
  define mid where
    "mid = getNormalizedAngle (startAngle a + (endAngle a - startAngle a) / 2 - pi / 2)"
  define link where "link = computeArcLink a off dl sl"
  have s: "side link = (if mid < pi / 2 \<or> mid > pi * 1.5 then After else Before)"
    unfolding link_def mid_def by (rule computeArcLink_side)
  have p: "x (points2 (points link)) =
      (if side link = After then x (points1 (points link)) + sl
       else x (points1 (points link)) - sl)"
    unfolding link_def by (rule computeArcLink_point2_x)
  have branch: "if mid < pi / 2 \<or> mid > pi * 1.5
        then side link = After
             \<and> x (points2 (points link)) = x (points1 (points link)) + sl
        else side link = Before
             \<and> x (points2 (points link)) = x (points1 (points link)) - sl"
    using s p by simp
  have tie: "mid = pi / 2 \<or> mid = pi * 1.5 \<longrightarrow> side link = Before"
    using s by auto
  have sym: "startAngle a = - (spn / 2) \<and> endAngle a = spn / 2 \<longrightarrow>
            mid = pi * 1.5 \<and> side link = Before
            \<and> x (points2 (points link)) = x (points1 (points link)) - sl"
  proof (intro impI)
    assume h: "startAngle a = - (spn / 2) \<and> endAngle a = spn / 2"
    then have m: "mid = pi * 1.5"
      unfolding mid_def using symmetric_centerAngle by blast
    with tie have "side link = Before" by simp
    with m p show "mid = pi * 1.5 \<and> side link = Before
            \<and> x (points2 (points link)) = x (points1 (points link)) - sl" by simp
  qed
  from branch tie sym show ?thesis
    unfolding Let_def mid_def link_def by blast
qed

text \<open>
  The arc from \<open>-1\<close> to \<open>1\<close> radian is symmetric with span \<open>2\<close>: its link is on the
  side \<open>Before\<close> and its last segment goes \<open>20\<close> to the left. The arc from \<open>0\<close> to
  \<open>\<pi>/2\<close> has its bisecting angle at \<open>1.75\<pi>\<close>: its link is on the side \<open>After\<close> and
  its last segment goes \<open>20\<close> to the right.
\<close>

theorem computeArcLink_side_classification_witness:
  "(let symmetric = \<lparr>startAngle = - 1, endAngle = 1, innerRadius = 0, outerRadius = 100\<rparr>;
        quarter = \<lparr>startAngle = 0, endAngle = pi / 2, innerRadius = 0, outerRadius = 100\<rparr>
    in side (computeArcLink symmetric 0.5 10 20) = Before
       \<and> x (points2 (points (computeArcLink symmetric 0.5 10 20)))
           = x (points1 (points (computeArcLink symmetric 0.5 10 20))) - 20
       \<and> side (computeArcLink quarter 0.5 10 20) = After
       \<and> x (points2 (points (computeArcLink quarter 0.5 10 20)))
           = x (points1 (points (computeArcLink quarter 0.5 10 20))) + 20)"
proof -
  define symmetric where
    "symmetric = \<lparr>startAngle = - 1, endAngle = 1, innerRadius = 0, outerRadius = 100\<rparr>"
  define quarter where
    "quarter = \<lparr>startAngle = 0, endAngle = pi / 2, innerRadius = 0, outerRadius = 100\<rparr>"
  have s: "side (computeArcLink symmetric 0.5 10 20) = Before
       \<and> x (points2 (points (computeArcLink symmetric 0.5 10 20)))
           = x (points1 (points (computeArcLink symmetric 0.5 10 20))) - 20"
    using computeArcLink_side_classification [of symmetric "0.5" 10 20 2]
    by (simp add: Let_def symmetric_def)
  have "startAngle quarter + (endAngle quarter - startAngle quarter) / 2 - pi / 2
          = - (pi / 4)"
    by (simp add: quarter_def)
  then have m: "getNormalizedAngle
          (startAngle quarter + (endAngle quarter - startAngle quarter) / 2 - pi / 2)
          = pi * 1.75"
    by (simp only: getNormalizedAngle_neg_quarter_pi)
  have q: "side (computeArcLink quarter 0.5 10 20) = After
       \<and> x (points2 (points (computeArcLink quarter 0.5 10 20)))
           = x (points1 (points (computeArcLink quarter 0.5 10 20))) + 20"
    using computeArcLink_side_classification [of quarter "0.5" 10 20 0]
    unfolding Let_def m by simp
  from s q show ?thesis
    by (simp add: Let_def symmetric_def quarter_def)
qed

section \<open>Properties of useArcLinks\<close>

subsection \<open>Shared facts\<close>

lemma abs_radiansToDegrees: "\<bar>radiansToDegrees r\<bar> = radiansToDegrees \<bar>r\<bar>"
  by (simp add: radiansToDegrees_def abs_mult)

lemma useArcLinks_unfold:
  "useArcLinks d skA offA dl sl cepA =
     map (\<lambda>link. (case cepA of None \<Rightarrow> (\<lambda>_. Map.empty) | Some f \<Rightarrow> f) link
                    ++ spreadLink link)
         (links d (case skA of None \<Rightarrow> 0 | Some v \<Rightarrow> v)
                  (case offA of None \<Rightarrow> 0.5 | Some v \<Rightarrow> v) dl sl)"
  by (simp add: useArcLinks_def Let_def)

lemma data_links:
  "map data (links d sk off dl sl) =
     filter (\<lambda>datum. radiansToDegrees \<bar>endAngle (arc datum) - startAngle (arc datum)\<bar>
                       \<ge> sk) d"
  by (simp add: links_def Let_def comp_def abs_radiansToDegrees)

lemma links_singleton:
  "\<bar>radiansToDegrees (endAngle (arc datum) - startAngle (arc datum))\<bar> \<ge> sk \<Longrightarrow>
   links [datum] sk off dl sl =
     [\<lparr>side = side (computeArcLink (arc datum) off dl sl),
       points = points (computeArcLink (arc datum) off dl sl), data = datum\<rparr>]"
  by (simp add: links_def Let_def)

lemma spreadLink_side: "spreadLink link ''side'' = Some (SideValue (side link))"
  by (simp add: spreadLink_def)

lemma spreadLink_points: "spreadLink link ''points'' = Some (PointsValue (points link))"
  by (simp add: spreadLink_def)

lemma spreadLink_data: "spreadLink link ''data'' = Some (DataValue (data link))"
  by (simp add: spreadLink_def)

lemma merge_link_wins:
  fixes extra :: "('d, 'e) Props"
  assumes "k \<in> dom (spreadLink link :: ('d, 'e) Props)"
  shows "(extra ++ spreadLink link) k = spreadLink link k"
  using assms by (auto simp: map_add_def split: option.splits)

text \<open>
  The \<^verbatim>\<open>data\<close> properties of the output, in order, are the input items that pass the
  filter, in order. The threshold is written as the spec words it, \<open>|endAngle -
  startAngle|\<close> converted to degrees; the code converts first and takes the absolute
  value after, which is the same number.
\<close>

lemma useArcLinks_data:
  "map (\<lambda>e. e ''data'') (useArcLinks d skA offA dl sl cepA) =
     map (\<lambda>datum. Some (DataValue datum))
       (filter (\<lambda>datum. radiansToDegrees \<bar>endAngle (arc datum) - startAngle (arc datum)\<bar>
                          \<ge> (case skA of None \<Rightarrow> 0 | Some v \<Rightarrow> v)) d)"
proof -
  have "map (\<lambda>e. e ''data'') (useArcLinks d skA offA dl sl cepA) =
      map (\<lambda>link. Some (DataValue (data link)))
        (links d (case skA of None \<Rightarrow> 0 | Some v \<Rightarrow> v)
                  (case offA of None \<Rightarrow> 0.5 | Some v \<Rightarrow> v) dl sl)"
    by (simp add: useArcLinks_unfold comp_def spreadLink_data)
  also have "\<dots> = map (\<lambda>datum. Some (DataValue datum))
        (map data (links d (case skA of None \<Rightarrow> 0 | Some v \<Rightarrow> v)
                  (case offA of None \<Rightarrow> 0.5 | Some v \<Rightarrow> v) dl sl))"
    by (simp add: comp_def)
  finally show ?thesis by (simp only: data_links)
qed

lemma length_useArcLinks:
  "length (useArcLinks d skA offA dl sl cepA) =
     length (filter (\<lambda>datum. radiansToDegrees \<bar>endAngle (arc datum) - startAngle (arc datum)\<bar>
                          \<ge> (case skA of None \<Rightarrow> 0 | Some v \<Rightarrow> v)) d)"
  using arg_cong [OF useArcLinks_data, of length d skA offA dl sl cepA] by simp

subsection \<open>The skipAngle filter\<close>

text \<open>
  Claim C3. For every input array and \<open>skipAngle\<close>, \<^verbatim>\<open>useArcLinks\<close> has an output
  element for an input item if and only if \<open>|endAngle - startAngle|\<close> of its arc,
  converted to degrees, is at least \<open>skipAngle\<close>; the other items contribute nothing:
  the output has as many elements as there are items at or above the threshold.
\<close>

theorem useArcLinks_skipAngle_filter:
  "length (useArcLinks d skA offA dl sl cepA) =
     length (filter (\<lambda>datum. radiansToDegrees \<bar>endAngle (arc datum) - startAngle (arc datum)\<bar>
                          \<ge> (case skA of None \<Rightarrow> 0 | Some v \<Rightarrow> v)) d)
   \<and> (\<forall>datum \<in> set d.
        (\<exists>e \<in> set (useArcLinks d skA offA dl sl cepA). e ''data'' = Some (DataValue datum))
        \<longleftrightarrow> radiansToDegrees \<bar>endAngle (arc datum) - startAngle (arc datum)\<bar>
              \<ge> (case skA of None \<Rightarrow> 0 | Some v \<Rightarrow> v))"
proof (intro conjI ballI)
  show "length (useArcLinks d skA offA dl sl cepA) =
     length (filter (\<lambda>datum. radiansToDegrees \<bar>endAngle (arc datum) - startAngle (arc datum)\<bar>
                          \<ge> (case skA of None \<Rightarrow> 0 | Some v \<Rightarrow> v)) d)"
    by (rule length_useArcLinks)
next
  fix datum assume m: "datum \<in> set d"
  let ?P = "\<lambda>datum. radiansToDegrees \<bar>endAngle (arc datum) - startAngle (arc datum)\<bar>
                          \<ge> (case skA of None \<Rightarrow> 0 | Some v \<Rightarrow> v)"
  let ?out = "useArcLinks d skA offA dl sl cepA"
  have img: "(\<lambda>e. e ''data'') ` set ?out = (\<lambda>x. Some (DataValue x)) ` set (filter ?P d)"
    using arg_cong [OF useArcLinks_data, of set d skA offA dl sl cepA] by simp
  have "(\<exists>e \<in> set ?out. e ''data'' = Some (DataValue datum))
       \<longleftrightarrow> Some (DataValue datum) \<in> (\<lambda>e. e ''data'') ` set ?out"
    by (simp add: image_iff) metis
  also have "\<dots> \<longleftrightarrow> datum \<in> set (filter ?P d)"
    unfolding img by auto
  also have "\<dots> \<longleftrightarrow> ?P datum"
    using m by simp
  finally show "(\<exists>e \<in> set ?out. e ''data'' = Some (DataValue datum)) \<longleftrightarrow> ?P datum" .
qed

text \<open>
  The spec's example: arcs of 5, 15 and 30 degrees and \<open>skipAngle = 10\<close>. The output
  has two elements, one for the 15 degree item and one for the 30 degree item, and
  none for the 5 degree item.
\<close>

theorem useArcLinks_skipAngle_filter_witness:
  "(let d5 = \<lparr>arc = \<lparr>startAngle = 0, endAngle = 5 * pi / 180,
                       innerRadius = 0, outerRadius = 100\<rparr>\<rparr>;
        d15 = \<lparr>arc = \<lparr>startAngle = 0, endAngle = 15 * pi / 180,
                        innerRadius = 0, outerRadius = 100\<rparr>\<rparr>;
        d30 = \<lparr>arc = \<lparr>startAngle = 0, endAngle = 30 * pi / 180,
                        innerRadius = 0, outerRadius = 100\<rparr>\<rparr>;
        out = (useArcLinks [d5, d15, d30] (Some 10) None 10 20 None
                 :: (DatumWithArc, unit) Props list)
    in length out = 2
       \<and> (\<exists>e \<in> set out. e ''data'' = Some (DataValue d15))
       \<and> (\<exists>e \<in> set out. e ''data'' = Some (DataValue d30))
       \<and> \<not> (\<exists>e \<in> set out. e ''data'' = Some (DataValue d5)))"
  using useArcLinks_skipAngle_filter
    [of "[\<lparr>arc = \<lparr>startAngle = 0, endAngle = 5 * pi / 180,
                   innerRadius = 0, outerRadius = 100\<rparr>\<rparr>,
          \<lparr>arc = \<lparr>startAngle = 0, endAngle = 15 * pi / 180,
                   innerRadius = 0, outerRadius = 100\<rparr>\<rparr>,
          \<lparr>arc = \<lparr>startAngle = 0, endAngle = 30 * pi / 180,
                   innerRadius = 0, outerRadius = 100\<rparr>\<rparr>]"
        "Some 10" None 10 20
        "None :: (DatumWithArc ArcLinkWithDatum \<Rightarrow> (DatumWithArc, unit) Props) option"]
  by (simp add: Let_def radiansToDegrees_def)

subsection \<open>Merge precedence\<close>

text \<open>
  Claim C1. For every input array, geometry parameters and \<^verbatim>\<open>computeExtraProps\<close>, and
  for every link \<open>ls ! i\<close> of the first stage, the output element \<open>i\<close> is
  \<^verbatim>\<open>{...computeExtraProps(link), ...link}\<close> with the link written last: its \<^verbatim>\<open>side\<close>,
  \<^verbatim>\<open>points\<close> and \<^verbatim>\<open>data\<close> are the link's, and on every key that is both on the link
  and in the record \<^verbatim>\<open>computeExtraProps\<close> returns for it, the output carries the
  link's value.
\<close>

theorem useArcLinks_base_link_wins:
  fixes cep :: "'m DatumWithArc_scheme ArcLinkWithDatum \<Rightarrow> ('m DatumWithArc_scheme, 'e) Props"
  assumes "ls = links d (case skA of None \<Rightarrow> 0 | Some v \<Rightarrow> v)
                        (case offA of None \<Rightarrow> 0.5 | Some v \<Rightarrow> v) dl sl"
      and "i < length ls"
  shows "useArcLinks d skA offA dl sl (Some cep) ! i = cep (ls ! i) ++ spreadLink (ls ! i)
       \<and> (useArcLinks d skA offA dl sl (Some cep) ! i) ''side''
            = Some (SideValue (side (ls ! i)))
       \<and> (useArcLinks d skA offA dl sl (Some cep) ! i) ''points''
            = Some (PointsValue (points (ls ! i)))
       \<and> (useArcLinks d skA offA dl sl (Some cep) ! i) ''data''
            = Some (DataValue (data (ls ! i)))
       \<and> (\<forall>k \<in> dom (spreadLink (ls ! i) :: ('m DatumWithArc_scheme, 'e) Props)
                 \<inter> dom (cep (ls ! i)).
            (useArcLinks d skA offA dl sl (Some cep) ! i) k
              = (spreadLink (ls ! i) :: ('m DatumWithArc_scheme, 'e) Props) k)"
proof -
  have e: "useArcLinks d skA offA dl sl (Some cep) ! i = cep (ls ! i) ++ spreadLink (ls ! i)"
    using assms by (simp add: useArcLinks_unfold)
  show ?thesis
    unfolding e
    by (simp add: merge_link_wins spreadLink_side spreadLink_points spreadLink_data)
qed

text \<open>
  A \<^verbatim>\<open>computeExtraProps\<close> that returns a stale \<^verbatim>\<open>side: 'before'\<close> and a label, on the
  arc from \<open>0\<close> to \<open>\<pi>/2\<close> whose link is on the side \<open>After\<close>: the output keeps the
  link's \<open>After\<close> and the datum, and the label comes through.
\<close>

theorem useArcLinks_base_link_wins_witness:
  "(let datum = \<lparr>arc = \<lparr>startAngle = 0, endAngle = pi / 2, innerRadius = 0,
                           outerRadius = 100\<rparr>\<rparr>;
        stale = (\<lambda>link. [''side'' \<mapsto> SideValue Before,
                          ''label'' \<mapsto> ExtraValue ''A'']);
        out = useArcLinks [datum] None None 10 20 (Some stale)
    in (out ! 0) ''side'' = Some (SideValue After)
       \<and> (out ! 0) ''data'' = Some (DataValue datum)
       \<and> (out ! 0) ''label'' = Some (ExtraValue ''A''))"
proof -
  define datum :: DatumWithArc where
    "datum = \<lparr>arc = \<lparr>startAngle = 0, endAngle = pi / 2, innerRadius = 0,
                       outerRadius = 100\<rparr>\<rparr>"
  define stale :: "DatumWithArc ArcLinkWithDatum \<Rightarrow> (DatumWithArc, string) Props" where
    "stale = (\<lambda>link. [''side'' \<mapsto> SideValue Before, ''label'' \<mapsto> ExtraValue ''A''])"
  have ls: "links [datum] 0 0.5 10 20 =
     [\<lparr>side = After,
       points = points (computeArcLink (arc datum) 0.5 10 20), data = datum\<rparr>]"
    by (subst links_singleton)
       (simp_all add: datum_def radiansToDegrees_def quarter_arc_side)
  have h1: "links [datum] 0 0.5 10 20 =
      links [datum] (case None of None \<Rightarrow> 0 | Some v \<Rightarrow> v)
                    (case None of None \<Rightarrow> 0.5 | Some v \<Rightarrow> v) 10 20"
    by simp
  have h2: "0 < length (links [datum] 0 0.5 10 20)"
    by (simp only: ls) simp
  note c = useArcLinks_base_link_wins [OF h1 h2, of stale]
  from c have m: "useArcLinks [datum] None None 10 20 (Some stale) ! 0 =
             stale (links [datum] 0 0.5 10 20 ! 0) ++ spreadLink (links [datum] 0 0.5 10 20 ! 0)"
    by blast
  from c have sd: "(useArcLinks [datum] None None 10 20 (Some stale) ! 0) ''side''
            = Some (SideValue (side (links [datum] 0 0.5 10 20 ! 0)))"
    by blast
  from c have dt: "(useArcLinks [datum] None None 10 20 (Some stale) ! 0) ''data''
            = Some (DataValue (data (links [datum] 0 0.5 10 20 ! 0)))"
    by blast
  have lb: "(useArcLinks [datum] None None 10 20 (Some stale) ! 0) ''label''
            = Some (ExtraValue ''A'')"
    unfolding m ls by (simp add: stale_def spreadLink_def)
  from sd dt lb
  have "(useArcLinks [datum] None None 10 20 (Some stale) ! 0) ''side''
            = Some (SideValue After)
      \<and> (useArcLinks [datum] None None 10 20 (Some stale) ! 0) ''data''
            = Some (DataValue datum)
      \<and> (useArcLinks [datum] None None 10 20 (Some stale) ! 0) ''label''
            = Some (ExtraValue ''A'')"
    unfolding ls by simp
  then show ?thesis
    by (simp add: Let_def datum_def stale_def)
qed

subsection \<open>Order\<close>

text \<open>
  Claim C6. For every input array the output of \<^verbatim>\<open>useArcLinks\<close> lists its elements in
  the order of the surviving input items: the output is, position by position, the
  decorated link of the filtered input (the geometry and decoration passes are maps,
  so they reorder nothing), and the \<^verbatim>\<open>data\<close> properties of the output form a
  subsequence of the input (the filter is stable).
\<close>

theorem useArcLinks_preserves_order:
  "useArcLinks d skA offA dl sl cepA =
     map (\<lambda>datum.
            (let link = computeArcLink (arc datum)
                          (case offA of None \<Rightarrow> 0.5 | Some v \<Rightarrow> v) dl sl;
                 linkWithDatum = \<lparr>side = side link, points = points link, data = datum\<rparr>
             in (case cepA of None \<Rightarrow> Map.empty | Some f \<Rightarrow> f linkWithDatum)
                  ++ spreadLink linkWithDatum))
         (filter (\<lambda>datum. \<bar>radiansToDegrees (endAngle (arc datum) - startAngle (arc datum))\<bar>
                          \<ge> (case skA of None \<Rightarrow> 0 | Some v \<Rightarrow> v)) d)
   \<and> subseq (map (\<lambda>e. e ''data'') (useArcLinks d skA offA dl sl cepA))
            (map (\<lambda>datum. Some (DataValue datum)) d)"
proof
  show "useArcLinks d skA offA dl sl cepA =
     map (\<lambda>datum.
            (let link = computeArcLink (arc datum)
                          (case offA of None \<Rightarrow> 0.5 | Some v \<Rightarrow> v) dl sl;
                 linkWithDatum = \<lparr>side = side link, points = points link, data = datum\<rparr>
             in (case cepA of None \<Rightarrow> Map.empty | Some f \<Rightarrow> f linkWithDatum)
                  ++ spreadLink linkWithDatum))
         (filter (\<lambda>datum. \<bar>radiansToDegrees (endAngle (arc datum) - startAngle (arc datum))\<bar>
                          \<ge> (case skA of None \<Rightarrow> 0 | Some v \<Rightarrow> v)) d)"
    by (cases cepA) (simp_all add: useArcLinks_unfold links_def Let_def comp_def)
next
  show "subseq (map (\<lambda>e. e ''data'') (useArcLinks d skA offA dl sl cepA))
            (map (\<lambda>datum. Some (DataValue datum)) d)"
    by (simp only: useArcLinks_data) (rule subseq_map, rule subseq_filter_left)
qed

subsection \<open>The datum of an output element\<close>

text \<open>
  In the model over values: the \<^verbatim>\<open>data\<close> of output element \<open>i\<close> is the \<open>i\<close>-th
  surviving input item, a member of the input array, whole (its arc and its further
  fields), whatever \<^verbatim>\<open>computeExtraProps\<close> returns.
\<close>

lemma useArcLinks_data_is_input_datum:
  assumes "i < length (useArcLinks d skA offA dl sl cepA)"
  shows "(useArcLinks d skA offA dl sl cepA ! i) ''data'' =
           Some (DataValue
             (filter (\<lambda>datum. radiansToDegrees \<bar>endAngle (arc datum) - startAngle (arc datum)\<bar>
                          \<ge> (case skA of None \<Rightarrow> 0 | Some v \<Rightarrow> v)) d ! i))
         \<and> filter (\<lambda>datum. radiansToDegrees \<bar>endAngle (arc datum) - startAngle (arc datum)\<bar>
                          \<ge> (case skA of None \<Rightarrow> 0 | Some v \<Rightarrow> v)) d ! i \<in> set d"
proof -
  let ?P = "\<lambda>datum. radiansToDegrees \<bar>endAngle (arc datum) - startAngle (arc datum)\<bar>
                          \<ge> (case skA of None \<Rightarrow> 0 | Some v \<Rightarrow> v)"
  let ?out = "useArcLinks d skA offA dl sl cepA"
  from assms have i: "i < length (filter ?P d)"
    by (simp only: length_useArcLinks)
  have "(?out ! i) ''data'' = map (\<lambda>e. e ''data'') ?out ! i"
    using assms by simp
  also have "\<dots> = Some (DataValue (filter ?P d ! i))"
    using i by (simp only: useArcLinks_data nth_map)
  finally have 1: "(?out ! i) ''data'' = Some (DataValue (filter ?P d ! i))" .
  have "filter ?P d ! i \<in> set (filter ?P d)"
    using i by (rule nth_mem)
  then have 2: "filter ?P d ! i \<in> set d" by simp
  from 1 2 show ?thesis by blast
qed

text \<open>
  Two items of 5 and 15 degrees, \<open>skipAngle = 10\<close>, and a \<^verbatim>\<open>computeExtraProps\<close> that
  returns the other item under the key \<^verbatim>\<open>data\<close>: the one output element still carries
  the 15 degree item.
\<close>

lemma useArcLinks_data_is_input_datum_example:
  "(let d5 = \<lparr>arc = \<lparr>startAngle = 0, endAngle = 5 * pi / 180,
                       innerRadius = 0, outerRadius = 100\<rparr>\<rparr>;
        d15 = \<lparr>arc = \<lparr>startAngle = 0, endAngle = 15 * pi / 180,
                        innerRadius = 0, outerRadius = 100\<rparr>\<rparr>;
        overwrite = (\<lambda>link. [''data'' \<mapsto> DataValue d5]);
        out = (useArcLinks [d5, d15] (Some 10) None 10 20 (Some overwrite)
                 :: (DatumWithArc, unit) Props list)
    in length out = 1 \<and> (out ! 0) ''data'' = Some (DataValue d15))"
proof -
  define d5 :: DatumWithArc where
    "d5 = \<lparr>arc = \<lparr>startAngle = 0, endAngle = 5 * pi / 180,
                   innerRadius = 0, outerRadius = 100\<rparr>\<rparr>"
  define d15 :: DatumWithArc where
    "d15 = \<lparr>arc = \<lparr>startAngle = 0, endAngle = 15 * pi / 180,
                    innerRadius = 0, outerRadius = 100\<rparr>\<rparr>"
  define overwrite :: "DatumWithArc ArcLinkWithDatum \<Rightarrow> (DatumWithArc, unit) Props" where
    "overwrite = (\<lambda>link. [''data'' \<mapsto> DataValue d5])"
  have len: "length (useArcLinks [d5, d15] (Some 10) None 10 20 (Some overwrite)) = 1"
    by (simp add: length_useArcLinks d5_def d15_def radiansToDegrees_def)
  then have "0 < length (useArcLinks [d5, d15] (Some 10) None 10 20 (Some overwrite))"
    by simp
  from useArcLinks_data_is_input_datum [OF this]
  have "(useArcLinks [d5, d15] (Some 10) None 10 20 (Some overwrite) ! 0) ''data''
          = Some (DataValue d15)"
    by (simp add: d5_def d15_def radiansToDegrees_def)
  with len show ?thesis
    by (simp add: Let_def d5_def d15_def overwrite_def)
qed

subsection \<open>The inputs in the store\<close>

text \<open>Objects are only ever added at the end of the store, so what was read before
  an allocation reads the same after it.\<close>

lemma readDatum_prefix:
  "prefix h h' \<Longrightarrow> readDatum h a = Some d \<Longrightarrow> readDatum h' a = Some d"
  by (auto simp: readDatum_def prefix_def nth_append split: if_splits)

lemma readProps_prefix:
  "prefix h h' \<Longrightarrow> readProps h a = Some p \<Longrightarrow> readProps h' a = Some p"
  by (auto simp: readProps_def prefix_def nth_append split: if_splits)

lemma readArray_prefix:
  "prefix h h' \<Longrightarrow> readArray h a = Some p \<Longrightarrow> readArray h' a = Some p"
  by (auto simp: readArray_def prefix_def nth_append split: if_splits)

lemma prefix_nth: "prefix h h' \<Longrightarrow> a < length h \<Longrightarrow> h' ! a = h ! a"
  by (auto simp: prefix_def nth_append)

lemma readProps_alloc:
  "readProps (h @ [PropsObject p]) (length h) = Some p"
  by (simp add: readProps_def)

lemma readArray_alloc:
  "readArray (h @ [ArrayObject p]) (length h) = Some p"
  by (simp add: readArray_def)

lemma filterStore_total:
  "\<forall>r \<in> set rs. \<exists>d. readDatum h r = Some d \<Longrightarrow>
   filterStore h sk rs =
     Some (filter (\<lambda>r. \<bar>radiansToDegrees (endAngle (arc (the (readDatum h r)))
                                        - startAngle (arc (the (readDatum h r))))\<bar> \<ge> sk) rs)"
  by (induction rs) auto

lemma mapLinksStore_spec:
  "\<forall>r \<in> set rs. \<exists>d. readDatum h r = Some d \<Longrightarrow>
   \<exists>lr h'. mapLinksStore h off dl sl rs = Some (lr, h') \<and> prefix h h'
     \<and> length lr = length rs
     \<and> (\<forall>i < length rs.
           readProps h' (lr ! i) =
             Some [''side'' \<mapsto> StoredSide
                     (side (computeArcLink (arc (the (readDatum h (rs ! i)))) off dl sl)),
                   ''points'' \<mapsto> StoredPoints
                     (points (computeArcLink (arc (the (readDatum h (rs ! i)))) off dl sl)),
                   ''data'' \<mapsto> Reference (rs ! i)])"
proof (induction rs arbitrary: h)
  case Nil
  then show ?case by simp
next
  case (Cons r rs)
  from Cons.prems obtain d where d: "readDatum h r = Some d" by auto
  define obj :: "('a, 'b) HeapObject" where
    "obj = PropsObject [''side'' \<mapsto> StoredSide (side (computeArcLink (arc d) off dl sl)),
                        ''points'' \<mapsto> StoredPoints (points (computeArcLink (arc d) off dl sl)),
                        ''data'' \<mapsto> Reference r]"
  define h1 where "h1 = h @ [obj]"
  have p1: "prefix h h1" by (simp add: h1_def)
  have keep: "readDatum h1 q = readDatum h q" if "q \<in> set (r # rs)" for q
  proof -
    from Cons.prems that obtain e where "readDatum h q = Some e" by auto
    with p1 show ?thesis by (simp add: readDatum_prefix)
  qed
  have "\<forall>q \<in> set rs. \<exists>e. readDatum h1 q = Some e"
    using Cons.prems keep by auto
  from Cons.IH [OF this] obtain lr h2 where
    run: "mapLinksStore h1 off dl sl rs = Some (lr, h2)" and p2: "prefix h1 h2"
    and len: "length lr = length rs"
    and each: "\<forall>i < length rs.
           readProps h2 (lr ! i) =
             Some [''side'' \<mapsto> StoredSide
                     (side (computeArcLink (arc (the (readDatum h1 (rs ! i)))) off dl sl)),
                   ''points'' \<mapsto> StoredPoints
                     (points (computeArcLink (arc (the (readDatum h1 (rs ! i)))) off dl sl)),
                   ''data'' \<mapsto> Reference (rs ! i)]"
    by blast
  have res: "mapLinksStore h off dl sl (r # rs) = Some (length h # lr, h2)"
    using d run by (simp add: alloc_def Let_def h1_def obj_def)
  have p: "prefix h h2" using p1 p2 by (rule prefix_order.trans)
  have first: "readProps h2 (length h) =
      Some [''side'' \<mapsto> StoredSide (side (computeArcLink (arc d) off dl sl)),
            ''points'' \<mapsto> StoredPoints (points (computeArcLink (arc d) off dl sl)),
            ''data'' \<mapsto> Reference r]"
    by (rule readProps_prefix [OF p2]) (simp add: h1_def obj_def readProps_alloc)
  have "\<forall>i < length (r # rs).
           readProps h2 ((length h # lr) ! i) =
             Some [''side'' \<mapsto> StoredSide
                     (side (computeArcLink (arc (the (readDatum h ((r # rs) ! i)))) off dl sl)),
                   ''points'' \<mapsto> StoredPoints
                     (points (computeArcLink (arc (the (readDatum h ((r # rs) ! i)))) off dl sl)),
                   ''data'' \<mapsto> Reference ((r # rs) ! i)]"
  proof (intro allI impI)
    fix i assume i: "i < length (r # rs)"
    show "readProps h2 ((length h # lr) ! i) =
             Some [''side'' \<mapsto> StoredSide
                     (side (computeArcLink (arc (the (readDatum h ((r # rs) ! i)))) off dl sl)),
                   ''points'' \<mapsto> StoredPoints
                     (points (computeArcLink (arc (the (readDatum h ((r # rs) ! i)))) off dl sl)),
                   ''data'' \<mapsto> Reference ((r # rs) ! i)]"
    proof (cases i)
      case 0
      with first d show ?thesis by simp
    next
      case (Suc j)
      with i have j: "j < length rs" by simp
      then have "rs ! j \<in> set (r # rs)" by simp
      then have "readDatum h1 (rs ! j) = readDatum h (rs ! j)" by (rule keep)
      with each j Suc show ?thesis by simp
    qed
  qed
  moreover have "length (length h # lr) = length (r # rs)" using len by simp
  ultimately show ?case using res p by blast
qed

lemma mapMergeStore_spec:
  assumes frame: "\<forall>h l. prefix h (snd (cb h l))"
  shows "\<forall>l \<in> set ls. \<exists>p. readProps h l = Some p \<Longrightarrow>
   \<exists>mr h'. mapMergeStore cb h ls = Some (mr, h') \<and> prefix h h'
     \<and> length mr = length ls
     \<and> (\<forall>i < length ls. \<exists>hb. prefix h hb
           \<and> readProps h' (mr ! i) =
               Some (fst (cb hb (ls ! i)) ++ the (readProps h (ls ! i))))"
proof (induction ls arbitrary: h)
  case Nil
  then show ?case by simp
next
  case (Cons l ls)
  from Cons.prems obtain lp where lp: "readProps h l = Some lp" by auto
  obtain extra h1 where cb: "cb h l = (extra, h1)" by (cases "cb h l")
  with frame have p1: "prefix h h1" by (metis snd_conv)
  have lp1: "readProps h1 l = Some lp" using p1 lp by (rule readProps_prefix)
  define h2 where "h2 = h1 @ [PropsObject (extra ++ lp)]"
  have p12: "prefix h1 h2" by (simp add: h2_def)
  have p2: "prefix h h2" using p1 p12 by (rule prefix_order.trans)
  have keep: "readProps h2 q = readProps h q" if "q \<in> set (l # ls)" for q
  proof -
    from Cons.prems that obtain e where "readProps h q = Some e" by auto
    with p2 show ?thesis by (simp add: readProps_prefix)
  qed
  have "\<forall>q \<in> set ls. \<exists>e. readProps h2 q = Some e"
    using Cons.prems keep by auto
  from Cons.IH [OF this] obtain mr h3 where
    run: "mapMergeStore cb h2 ls = Some (mr, h3)" and p3: "prefix h2 h3"
    and len: "length mr = length ls"
    and each: "\<forall>i < length ls. \<exists>hb. prefix h2 hb
           \<and> readProps h3 (mr ! i) =
               Some (fst (cb hb (ls ! i)) ++ the (readProps h2 (ls ! i)))"
    by blast
  have res: "mapMergeStore cb h (l # ls) = Some (length h1 # mr, h3)"
    using cb lp1 run by (simp add: alloc_def Let_def h2_def)
  have p: "prefix h h3" using p2 p3 by (rule prefix_order.trans)
  have first: "readProps h3 (length h1) = Some (fst (cb h l) ++ the (readProps h l))"
    unfolding cb lp
    by (rule readProps_prefix [OF p3]) (simp add: h2_def readProps_alloc)
  have "\<forall>i < length (l # ls). \<exists>hb. prefix h hb
           \<and> readProps h3 ((length h1 # mr) ! i) =
               Some (fst (cb hb ((l # ls) ! i)) ++ the (readProps h ((l # ls) ! i)))"
  proof (intro allI impI)
    fix i assume i: "i < length (l # ls)"
    show "\<exists>hb. prefix h hb
           \<and> readProps h3 ((length h1 # mr) ! i) =
               Some (fst (cb hb ((l # ls) ! i)) ++ the (readProps h ((l # ls) ! i)))"
    proof (cases i)
      case 0
      have "prefix h h" by simp
      with first 0 show ?thesis by auto
    next
      case (Suc j)
      with i have j: "j < length ls" by simp
      then have "ls ! j \<in> set (l # ls)" by simp
      then have k: "readProps h2 (ls ! j) = readProps h (ls ! j)" by (rule keep)
      from each j obtain hb where "prefix h2 hb"
        "readProps h3 (mr ! j) = Some (fst (cb hb (ls ! j)) ++ the (readProps h2 (ls ! j)))"
        by blast
      moreover from p2 \<open>prefix h2 hb\<close> have "prefix h hb" by (rule prefix_order.trans)
      ultimately show ?thesis unfolding k Suc by auto
    qed
  qed
  moreover have "length (length h1 # mr) = length (l # ls)" using len by simp
  ultimately show ?case using res p by blast
qed

text \<open>
  One run of the pipeline on a store in which \<open>dataArray\<close> is an array of data: it
  returns, the store it leaves extends the store it was given, and output object \<open>i\<close>
  is what the callback returned for link \<open>i\<close>, overwritten by the link: its side,
  its points and the address of its datum.
\<close>

lemma useArcLinksStore_run:
  fixes heap :: "('m, 'e) Heap"
  assumes arr: "readArray heap dataArray = Some elements"
      and elems: "\<forall>r \<in> set elements. \<exists>datum. readDatum heap r = Some datum"
      and frame: "\<forall>h l. prefix h (snd (cb h l))"
      and cb: "cb = (case cbA of None \<Rightarrow> (\<lambda>h _. (Map.empty, h)) | Some f \<Rightarrow> f)"
      and sk: "sk = (case skA of None \<Rightarrow> 0 | Some v \<Rightarrow> v)"
      and off: "off = (case offA of None \<Rightarrow> 0.5 | Some v \<Rightarrow> v)"
      and kept: "kept = filter (\<lambda>r. \<bar>radiansToDegrees
                           (endAngle (arc (the (readDatum heap r)))
                              - startAngle (arc (the (readDatum heap r))))\<bar> \<ge> sk) elements"
  shows "\<exists>out heap' merged.
           useArcLinksStore heap dataArray skA offA dl sl cbA = Some (out, heap')
         \<and> prefix heap heap'
         \<and> readArray heap' out = Some merged
         \<and> length merged = length kept
         \<and> (\<forall>i < length kept. \<exists>hb la. prefix heap hb
               \<and> readProps heap' (merged ! i) =
                   Some (fst (cb hb la) ++
                     [''side'' \<mapsto> StoredSide (side (computeArcLink
                         (arc (the (readDatum heap (kept ! i)))) off dl sl)),
                      ''points'' \<mapsto> StoredPoints (points (computeArcLink
                         (arc (the (readDatum heap (kept ! i)))) off dl sl)),
                      ''data'' \<mapsto> Reference (kept ! i)]))"
proof -
  have sub: "set kept \<subseteq> set elements" by (auto simp: kept)
  have f: "filterStore heap sk elements = Some kept"
    unfolding kept by (rule filterStore_total [OF elems])
  define h1 where "h1 = heap @ [ArrayObject kept]"
  have p1: "prefix heap h1" by (simp add: h1_def)
  have d1: "readDatum h1 r = readDatum heap r" if "r \<in> set elements" for r
  proof -
    from elems that obtain e where "readDatum heap r = Some e" by auto
    with p1 show ?thesis by (simp add: readDatum_prefix)
  qed
  have "\<forall>r \<in> set kept. \<exists>d. readDatum h1 r = Some d"
    using elems sub d1 by auto
  from mapLinksStore_spec [OF this, of off dl sl] obtain lr h2 where
    m: "mapLinksStore h1 off dl sl kept = Some (lr, h2)" and p2: "prefix h1 h2"
    and len2: "length lr = length kept"
    and each2: "\<forall>i < length kept.
           readProps h2 (lr ! i) =
             Some [''side'' \<mapsto> StoredSide
                     (side (computeArcLink (arc (the (readDatum h1 (kept ! i)))) off dl sl)),
                   ''points'' \<mapsto> StoredPoints
                     (points (computeArcLink (arc (the (readDatum h1 (kept ! i)))) off dl sl)),
                   ''data'' \<mapsto> Reference (kept ! i)]"
    by blast
  define h3 where "h3 = h2 @ [ArrayObject lr]"
  have p3: "prefix h2 h3" by (simp add: h3_def)
  have p03: "prefix heap h3" using p1 p2 p3 by (meson prefix_order.trans)
  have link3: "readProps h3 (lr ! i) =
             Some [''side'' \<mapsto> StoredSide
                     (side (computeArcLink (arc (the (readDatum heap (kept ! i)))) off dl sl)),
                   ''points'' \<mapsto> StoredPoints
                     (points (computeArcLink (arc (the (readDatum heap (kept ! i)))) off dl sl)),
                   ''data'' \<mapsto> Reference (kept ! i)]"
    if "i < length kept" for i
  proof -
    from that sub have "kept ! i \<in> set elements" by auto
    then have "readDatum h1 (kept ! i) = readDatum heap (kept ! i)" by (rule d1)
    with each2 that have "readProps h2 (lr ! i) =
             Some [''side'' \<mapsto> StoredSide
                     (side (computeArcLink (arc (the (readDatum heap (kept ! i)))) off dl sl)),
                   ''points'' \<mapsto> StoredPoints
                     (points (computeArcLink (arc (the (readDatum heap (kept ! i)))) off dl sl)),
                   ''data'' \<mapsto> Reference (kept ! i)]"
      by simp
    then show ?thesis by (rule readProps_prefix [OF p3])
  qed
  have "\<forall>l \<in> set lr. \<exists>p. readProps h3 l = Some p"
  proof
    fix l assume "l \<in> set lr"
    then obtain i where "i < length lr" "lr ! i = l" by (auto simp: in_set_conv_nth)
    with link3 [of i] len2 show "\<exists>p. readProps h3 l = Some p" by auto
  qed
  from mapMergeStore_spec [OF frame this] obtain mr h4 where
    g: "mapMergeStore cb h3 lr = Some (mr, h4)" and p4: "prefix h3 h4"
    and len4: "length mr = length lr"
    and each4: "\<forall>i < length lr. \<exists>hb. prefix h3 hb
           \<and> readProps h4 (mr ! i) =
               Some (fst (cb hb (lr ! i)) ++ the (readProps h3 (lr ! i)))"
    by blast
  define h5 where "h5 = h4 @ [ArrayObject mr]"
  have p5: "prefix h4 h5" by (simp add: h5_def)
  have run: "useArcLinksStore heap dataArray skA offA dl sl cbA = Some (length h4, h5)"
    using arr f m g
    by (simp add: useArcLinksStore_def Let_def alloc_def sk off cb h1_def h3_def h5_def)
  have p: "prefix heap h5"
    using p03 p4 p5 by (meson prefix_order.trans)
  have out5: "readArray h5 (length h4) = Some mr"
    by (simp add: h5_def readArray_alloc)
  have each5: "\<forall>i < length kept. \<exists>hb la. prefix heap hb
               \<and> readProps h5 (mr ! i) =
                   Some (fst (cb hb la) ++
                     [''side'' \<mapsto> StoredSide (side (computeArcLink
                         (arc (the (readDatum heap (kept ! i)))) off dl sl)),
                      ''points'' \<mapsto> StoredPoints (points (computeArcLink
                         (arc (the (readDatum heap (kept ! i)))) off dl sl)),
                      ''data'' \<mapsto> Reference (kept ! i)])"
  proof (intro allI impI)
    fix i assume i: "i < length kept"
    from each4 i len2 obtain hb where hb: "prefix h3 hb" and
      r4: "readProps h4 (mr ! i) = Some (fst (cb hb (lr ! i)) ++ the (readProps h3 (lr ! i)))"
      by auto
    from p03 hb have "prefix heap hb" by (rule prefix_order.trans)
    moreover from readProps_prefix [OF p5 r4] link3 [OF i]
    have "readProps h5 (mr ! i) =
                   Some (fst (cb hb (lr ! i)) ++
                     [''side'' \<mapsto> StoredSide (side (computeArcLink
                         (arc (the (readDatum heap (kept ! i)))) off dl sl)),
                      ''points'' \<mapsto> StoredPoints (points (computeArcLink
                         (arc (the (readDatum heap (kept ! i)))) off dl sl)),
                      ''data'' \<mapsto> Reference (kept ! i)])"
      by simp
    ultimately show "\<exists>hb la. prefix heap hb
               \<and> readProps h5 (mr ! i) =
                   Some (fst (cb hb la) ++
                     [''side'' \<mapsto> StoredSide (side (computeArcLink
                         (arc (the (readDatum heap (kept ! i)))) off dl sl)),
                      ''points'' \<mapsto> StoredPoints (points (computeArcLink
                         (arc (the (readDatum heap (kept ! i)))) off dl sl)),
                      ''data'' \<mapsto> Reference (kept ! i)])"
      by blast
  qed
  have "length mr = length kept" using len4 len2 by simp
  with run p out5 each5 show ?thesis by blast
qed

text \<open>
  Claim C9. \<^verbatim>\<open>useArcLinks\<close> does not mutate its inputs, and the \<^verbatim>\<open>data\<close> of an output
  element is the input datum itself. On every store in which \<open>dataArray\<close> is an array
  of data, and for every callback that only allocates (it leaves the objects that
  exist when it is called as they are), the pipeline returns; every object of the
  store it was given is unchanged in the store it leaves, so the input array still
  holds the same addresses and each input datum reads as before; and the \<^verbatim>\<open>data\<close>
  property of output object \<open>i\<close> is the address of the \<open>i\<close>-th input datum that passes
  the filter, an element of the input array: a reference to the datum, not a copy.
\<close>

theorem useArcLinksStore_inputs_unchanged:
  fixes heap :: "('m, 'e) Heap"
  assumes arr: "readArray heap dataArray = Some elements"
      and elems: "\<forall>r \<in> set elements. \<exists>datum. readDatum heap r = Some datum"
      and cbframe: "\<forall>f. cbA = Some f \<longrightarrow> (\<forall>h l. prefix h (snd (f h l)))"
      and kept: "kept = filter (\<lambda>r. \<bar>radiansToDegrees
                           (endAngle (arc (the (readDatum heap r)))
                              - startAngle (arc (the (readDatum heap r))))\<bar>
                         \<ge> (case skA of None \<Rightarrow> 0 | Some v \<Rightarrow> v)) elements"
  shows "\<exists>out heap'.
           useArcLinksStore heap dataArray skA offA dl sl cbA = Some (out, heap')
         \<and> length heap \<le> length heap'
         \<and> (\<forall>a < length heap. heap' ! a = heap ! a)
         \<and> readArray heap' dataArray = Some elements
         \<and> (\<forall>r \<in> set elements. readDatum heap' r = readDatum heap r)
         \<and> (\<exists>merged. readArray heap' out = Some merged
               \<and> length merged = length kept
               \<and> (\<forall>i < length kept. \<exists>props.
                     readProps heap' (merged ! i) = Some props
                     \<and> props ''data'' = Some (Reference (kept ! i))
                     \<and> kept ! i \<in> set elements))"
proof -
  define cb where
    "cb = (case cbA of None \<Rightarrow> (\<lambda>(h :: ('m, 'e) Heap) (_ :: addr). (Map.empty, h))
           | Some f \<Rightarrow> f)"
  have frame: "\<forall>h l. prefix h (snd (cb h l))"
    using cbframe by (cases cbA) (simp_all add: cb_def)
  have sub: "set kept \<subseteq> set elements" by (auto simp: kept)
  from useArcLinksStore_run [OF arr elems frame cb_def refl refl kept, where dl = dl and sl = sl
                               and offA = offA]
  obtain out heap' merged where
    run: "useArcLinksStore heap dataArray skA offA dl sl cbA = Some (out, heap')"
    and p: "prefix heap heap'"
    and outarr: "readArray heap' out = Some merged"
    and len: "length merged = length kept"
    and each: "\<forall>i < length kept. \<exists>hb la. prefix heap hb
               \<and> readProps heap' (merged ! i) =
                   Some (fst (cb hb la) ++
                     [''side'' \<mapsto> StoredSide (side (computeArcLink
                         (arc (the (readDatum heap (kept ! i))))
                         (case offA of None \<Rightarrow> 0.5 | Some v \<Rightarrow> v) dl sl)),
                      ''points'' \<mapsto> StoredPoints (points (computeArcLink
                         (arc (the (readDatum heap (kept ! i))))
                         (case offA of None \<Rightarrow> 0.5 | Some v \<Rightarrow> v) dl sl)),
                      ''data'' \<mapsto> Reference (kept ! i)])"
    by blast
  have grows: "length heap \<le> length heap'"
    using p by (rule prefix_length_le)
  have unchanged: "\<forall>a < length heap. heap' ! a = heap ! a"
    using p by (simp add: prefix_nth)
  have arr': "readArray heap' dataArray = Some elements"
    using p arr by (rule readArray_prefix)
  have dat': "\<forall>r \<in> set elements. readDatum heap' r = readDatum heap r"
  proof
    fix r assume "r \<in> set elements"
    with elems obtain e where "readDatum heap r = Some e" by auto
    with p show "readDatum heap' r = readDatum heap r" by (simp add: readDatum_prefix)
  qed
  have each': "\<forall>i < length kept. \<exists>props.
                     readProps heap' (merged ! i) = Some props
                     \<and> props ''data'' = Some (Reference (kept ! i))
                     \<and> kept ! i \<in> set elements"
  proof (intro allI impI)
    fix i assume i: "i < length kept"
    from each i obtain props where pr: "readProps heap' (merged ! i) = Some props"
      and d: "props ''data'' = Some (Reference (kept ! i))"
      by fastforce
    moreover from i sub have "kept ! i \<in> set elements" by auto
    ultimately show "\<exists>props.
                     readProps heap' (merged ! i) = Some props
                     \<and> props ''data'' = Some (Reference (kept ! i))
                     \<and> kept ! i \<in> set elements" by blast
  qed
  from outarr len each' have
    "\<exists>merged. readArray heap' out = Some merged
               \<and> length merged = length kept
               \<and> (\<forall>i < length kept. \<exists>props.
                     readProps heap' (merged ! i) = Some props
                     \<and> props ''data'' = Some (Reference (kept ! i))
                     \<and> kept ! i \<in> set elements)" by blast
  with run grows unchanged arr' dat' show ?thesis by blast
qed

text \<open>
  A store with a 5 degree datum at address \<open>0\<close>, a 15 degree datum at address \<open>1\<close> and
  the input array \<open>[0, 1]\<close> at address \<open>2\<close>; \<open>skipAngle = 10\<close>, and a callback that
  returns the address of the other datum under \<^verbatim>\<open>data\<close>. The first three objects of
  the store are unchanged, and the one output object refers to the datum at
  address \<open>1\<close>.
\<close>

theorem useArcLinksStore_inputs_unchanged_witness:
  "(let d5 = \<lparr>arc = \<lparr>startAngle = 0, endAngle = 5 * pi / 180,
                       innerRadius = 0, outerRadius = 100\<rparr>\<rparr>;
        d15 = \<lparr>arc = \<lparr>startAngle = 0, endAngle = 15 * pi / 180,
                        innerRadius = 0, outerRadius = 100\<rparr>\<rparr>;
        heap = ([DatumObject d5, DatumObject d15, ArrayObject [0, 1]]
                  :: (unit, unit) Heap);
        overwrite = (\<lambda>h l. ([''data'' \<mapsto> Reference 0], h))
    in \<exists>out heap' merged props.
         useArcLinksStore heap 2 (Some 10) None 10 20 (Some overwrite) = Some (out, heap')
         \<and> take 3 heap' = heap
         \<and> readArray heap' out = Some merged
         \<and> length merged = 1
         \<and> readProps heap' (merged ! 0) = Some props
         \<and> props ''data'' = Some (Reference 1))"
proof -
  define d5 :: DatumWithArc where
    "d5 = \<lparr>arc = \<lparr>startAngle = 0, endAngle = 5 * pi / 180,
                   innerRadius = 0, outerRadius = 100\<rparr>\<rparr>"
  define d15 :: DatumWithArc where
    "d15 = \<lparr>arc = \<lparr>startAngle = 0, endAngle = 15 * pi / 180,
                    innerRadius = 0, outerRadius = 100\<rparr>\<rparr>"
  define heap :: "(unit, unit) Heap" where
    "heap = [DatumObject d5, DatumObject d15, ArrayObject [0, 1]]"
  define overwrite ::
    "(unit, unit) Heap \<Rightarrow> addr \<Rightarrow> (string \<rightharpoonup> unit StoredValue) \<times> (unit, unit) Heap" where
    "overwrite = (\<lambda>h l. ([''data'' \<mapsto> Reference 0], h))"
  define kept where
    "kept = filter (\<lambda>r. \<bar>radiansToDegrees
                           (endAngle (arc (the (readDatum heap r)))
                              - startAngle (arc (the (readDatum heap r))))\<bar>
                         \<ge> (case Some 10 of None \<Rightarrow> 0 | Some v \<Rightarrow> v)) [0, 1]"
  have k: "kept = [1]"
    by (simp add: kept_def heap_def readDatum_def d5_def d15_def radiansToDegrees_def)
  have arr: "readArray heap 2 = Some [0, 1]"
    by (simp add: heap_def readArray_def)
  have elems: "\<forall>r \<in> set [0, 1]. \<exists>datum. readDatum heap r = Some datum"
    by (simp add: heap_def readDatum_def)
  have fr: "\<forall>f. Some overwrite = Some f \<longrightarrow> (\<forall>h l. prefix h (snd (f h l)))"
    by (simp add: overwrite_def)
  from useArcLinksStore_inputs_unchanged [OF arr elems fr kept_def, of None 10 20]
  obtain out heap' merged where
    run: "useArcLinksStore heap 2 (Some 10) None 10 20 (Some overwrite) = Some (out, heap')"
    and same: "\<forall>a < length heap. heap' ! a = heap ! a"
    and grows: "length heap \<le> length heap'"
    and outarr: "readArray heap' out = Some merged"
    and len: "length merged = length kept"
    and each: "\<forall>i < length kept. \<exists>props.
                     readProps heap' (merged ! i) = Some props
                     \<and> props ''data'' = Some (Reference (kept ! i))
                     \<and> kept ! i \<in> set [0, 1]"
    by blast
  from each k obtain props where pr: "readProps heap' (merged ! 0) = Some props"
    and d: "props ''data'' = Some (Reference 1)"
    by auto
  have "take 3 heap' = heap"
  proof (rule nth_equalityI)
    show "length (take 3 heap') = length heap" using grows by (simp add: heap_def)
  next
    fix i assume "i < length (take 3 heap')"
    then have "i < length heap" using grows by (simp add: heap_def)
    with same show "take 3 heap' ! i = heap ! i" by (simp add: heap_def)
  qed
  with run outarr len k pr d
  have "\<exists>out heap' merged props.
         useArcLinksStore heap 2 (Some 10) None 10 20 (Some overwrite) = Some (out, heap')
         \<and> take 3 heap' = heap
         \<and> readArray heap' out = Some merged
         \<and> length merged = 1
         \<and> readProps heap' (merged ! 0) = Some props
         \<and> props ''data'' = Some (Reference 1)"
    by auto
  then show ?thesis
    by (simp add: Let_def heap_def d5_def d15_def overwrite_def)
qed

text \<open>
  The two models agree: with the default callback, the output objects of
  \<open>useArcLinksStore\<close>, read through the store, are the output elements of
  \<open>useArcLinks\<close> on the data the input array refers to.
\<close>

lemma useArcLinksStore_refines_useArcLinks:
  fixes heap :: "('m, 'e) Heap"
  assumes arr: "readArray heap dataArray = Some elements"
      and elems: "\<forall>r \<in> set elements. \<exists>datum. readDatum heap r = Some datum"
  shows "\<exists>out heap' merged.
           useArcLinksStore heap dataArray skA offA dl sl None = Some (out, heap')
         \<and> readArray heap' out = Some merged
         \<and> map (\<lambda>a. derefProps heap' (the (readProps heap' a))) merged =
             useArcLinks (map (\<lambda>r. the (readDatum heap r)) elements) skA offA dl sl None"
proof -
  define sk where "sk = (case skA of None \<Rightarrow> (0::real) | Some v \<Rightarrow> v)"
  define off where "off = (case offA of None \<Rightarrow> (0.5::real) | Some v \<Rightarrow> v)"
  define cb where "cb = (\<lambda>(h :: ('m, 'e) Heap) (_ :: addr).
                            (Map.empty :: string \<rightharpoonup> 'e StoredValue, h))"
  define kept where "kept = filter (\<lambda>r. \<bar>radiansToDegrees
                           (endAngle (arc (the (readDatum heap r)))
                              - startAngle (arc (the (readDatum heap r))))\<bar> \<ge> sk) elements"
  have frame: "\<forall>h l. prefix h (snd (cb h l))" by (simp add: cb_def)
  have cbn: "cb = (case None of None \<Rightarrow> (\<lambda>h _. (Map.empty, h)) | Some f \<Rightarrow> f)"
    by (simp add: cb_def)
  from useArcLinksStore_run [OF arr elems frame cbn sk_def off_def kept_def,
                             where dl = dl and sl = sl]
  obtain out heap' merged where
    run: "useArcLinksStore heap dataArray skA offA dl sl None = Some (out, heap')"
    and p: "prefix heap heap'"
    and outarr: "readArray heap' out = Some merged"
    and len: "length merged = length kept"
    and each: "\<forall>i < length kept. \<exists>hb la. prefix heap hb
               \<and> readProps heap' (merged ! i) =
                   Some (fst (cb hb la) ++
                     [''side'' \<mapsto> StoredSide (side (computeArcLink
                         (arc (the (readDatum heap (kept ! i)))) off dl sl)),
                      ''points'' \<mapsto> StoredPoints (points (computeArcLink
                         (arc (the (readDatum heap (kept ! i)))) off dl sl)),
                      ''data'' \<mapsto> Reference (kept ! i)])"
    by blast
  have sub: "set kept \<subseteq> set elements" by (auto simp: kept_def)
  have pure: "(useArcLinks (map (\<lambda>r. the (readDatum heap r)) elements) skA offA dl sl None
                 :: ('m DatumWithArc_scheme, 'e) Props list) =
      map (\<lambda>r. spreadLink
                 \<lparr>side = side (computeArcLink (arc (the (readDatum heap r))) off dl sl),
                  points = points (computeArcLink (arc (the (readDatum heap r))) off dl sl),
                  data = the (readDatum heap r)\<rparr>) kept"
    by (simp add: useArcLinks_unfold links_def Let_def filter_map comp_def kept_def sk_def
                  off_def)
  have "map (\<lambda>a. derefProps heap' (the (readProps heap' a))) merged =
      map (\<lambda>r. spreadLink
                 \<lparr>side = side (computeArcLink (arc (the (readDatum heap r))) off dl sl),
                  points = points (computeArcLink (arc (the (readDatum heap r))) off dl sl),
                  data = the (readDatum heap r)\<rparr>) kept"
  proof (rule nth_equalityI)
    show "length (map (\<lambda>a. derefProps heap' (the (readProps heap' a))) merged) =
          length (map (\<lambda>r. spreadLink
                 \<lparr>side = side (computeArcLink (arc (the (readDatum heap r))) off dl sl),
                  points = points (computeArcLink (arc (the (readDatum heap r))) off dl sl),
                  data = the (readDatum heap r)\<rparr>) kept)"
      using len by simp
  next
    fix i assume "i < length (map (\<lambda>a. derefProps heap' (the (readProps heap' a))) merged)"
    with len have i: "i < length kept" by simp
    from each i have r: "readProps heap' (merged ! i) =
                   Some [''side'' \<mapsto> StoredSide (side (computeArcLink
                         (arc (the (readDatum heap (kept ! i)))) off dl sl)),
                      ''points'' \<mapsto> StoredPoints (points (computeArcLink
                         (arc (the (readDatum heap (kept ! i)))) off dl sl)),
                      ''data'' \<mapsto> Reference (kept ! i)]"
      by (auto simp: cb_def)
    from i sub have "kept ! i \<in> set elements" by auto
    with elems obtain e where e: "readDatum heap (kept ! i) = Some e" by auto
    with p have e': "readDatum heap' (kept ! i) = Some e" by (rule readDatum_prefix)
    show "map (\<lambda>a. derefProps heap' (the (readProps heap' a))) merged ! i =
          map (\<lambda>r. spreadLink
                 \<lparr>side = side (computeArcLink (arc (the (readDatum heap r))) off dl sl),
                  points = points (computeArcLink (arc (the (readDatum heap r))) off dl sl),
                  data = the (readDatum heap r)\<rparr>) kept ! i"
      using i len r e e'
      by (auto simp: derefProps_def derefValue_def spreadLink_def fun_eq_iff)
  qed
  with pure run outarr show ?thesis by auto
qed

subsection \<open>Defaults\<close>

text \<open>
  Claim C10. The defaults of \<^verbatim>\<open>useArcLinks\<close>: an omitted \<open>skipAngle\<close> is \<open>0\<close>, an
  omitted \<open>offset\<close> is \<open>0.5\<close>, an omitted \<^verbatim>\<open>computeExtraProps\<close> returns the empty
  record. With \<open>skipAngle\<close> omitted every item passes the filter, so the output has
  one element per input item; with all three omitted each output element is exactly
  the link computed at offset \<open>0.5\<close> with its datum, and has no other key.
\<close>

theorem useArcLinks_defaults:
  "useArcLinks d None offA dl sl cepA = useArcLinks d (Some 0) offA dl sl cepA
   \<and> useArcLinks d skA None dl sl cepA = useArcLinks d skA (Some 0.5) dl sl cepA
   \<and> useArcLinks d skA offA dl sl None
       = useArcLinks d skA offA dl sl (Some (\<lambda>link. Map.empty))
   \<and> useArcLinks d None None dl sl None =
       map (\<lambda>datum. [''side'' \<mapsto> SideValue (side (computeArcLink (arc datum) 0.5 dl sl)),
                     ''points'' \<mapsto> PointsValue (points (computeArcLink (arc datum) 0.5 dl sl)),
                     ''data'' \<mapsto> DataValue datum]) d
   \<and> length (useArcLinks d None offA dl sl cepA) = length d"
proof (intro conjI)
  show "useArcLinks d None offA dl sl cepA = useArcLinks d (Some 0) offA dl sl cepA"
    by (simp add: useArcLinks_def)
  show "useArcLinks d skA None dl sl cepA = useArcLinks d skA (Some 0.5) dl sl cepA"
    by (simp add: useArcLinks_def)
  show "useArcLinks d skA offA dl sl None
          = useArcLinks d skA offA dl sl (Some (\<lambda>link. Map.empty))"
    by (simp add: useArcLinks_def)
  show "useArcLinks d None None dl sl None =
       map (\<lambda>datum. [''side'' \<mapsto> SideValue (side (computeArcLink (arc datum) 0.5 dl sl)),
                     ''points'' \<mapsto> PointsValue (points (computeArcLink (arc datum) 0.5 dl sl)),
                     ''data'' \<mapsto> DataValue datum]) d"
    by (simp add: useArcLinks_def links_def Let_def comp_def spreadLink_def)
  show "length (useArcLinks d None offA dl sl cepA) = length d"
    by (simp add: length_useArcLinks abs_radiansToDegrees radiansToDegrees_def)
qed

section \<open>Properties of useArcLinkLabels\<close>

text \<open>
  Claim C4. For every link passed to the \<^verbatim>\<open>computeExtraProps\<close> of
  \<^verbatim>\<open>useArcLinkLabels\<close>: on the side \<open>Before\<close> the label has \<^verbatim>\<open>textAnchor = 'end'\<close> and
  \<^verbatim>\<open>x = points[2].x - textOffset\<close>; on the side \<open>After\<close> it has
  \<^verbatim>\<open>textAnchor = 'start'\<close> and \<^verbatim>\<open>x = points[2].x + textOffset\<close>; on both sides
  \<^verbatim>\<open>y = points[2].y\<close>.
\<close>

theorem labelExtraProps_anchor_and_position:
  "(case side link of
      Before \<Rightarrow>
        labelExtraProps textOffset getLabel getLinkColor getTextColor link ''textAnchor''
          = Some (ExtraValue (TextAnchorValue End))
        \<and> labelExtraProps textOffset getLabel getLinkColor getTextColor link ''x''
          = Some (ExtraValue (NumberValue (x (points2 (points link)) - textOffset)))
    | After \<Rightarrow>
        labelExtraProps textOffset getLabel getLinkColor getTextColor link ''textAnchor''
          = Some (ExtraValue (TextAnchorValue Start))
        \<and> labelExtraProps textOffset getLabel getLinkColor getTextColor link ''x''
          = Some (ExtraValue (NumberValue (x (points2 (points link)) + textOffset))))
   \<and> labelExtraProps textOffset getLabel getLinkColor getTextColor link ''y''
          = Some (ExtraValue (NumberValue (y (points2 (points link)))))"
  by (cases "side link") (simp_all add: labelExtraProps_def Let_def)

text \<open>
  In the output of \<^verbatim>\<open>useArcLinkLabels\<close> the six label properties of an element are
  those the callback computed for its link: no link property has one of their names.
\<close>

lemma useArcLinkLabels_label_props:
  assumes "ls = links d (case skA of None \<Rightarrow> 0 | Some v \<Rightarrow> v)
                        (case offA of None \<Rightarrow> 0.5 | Some v \<Rightarrow> v) dl sl"
      and "i < length ls"
      and "k \<in> {''x'', ''y'', ''label'', ''linkColor'', ''textAnchor'', ''textColor''}"
  shows "(useArcLinkLabels d skA offA dl sl toA getLabel getLinkColor getTextColor ! i) k =
           labelExtraProps (case toA of None \<Rightarrow> 0 | Some v \<Rightarrow> v)
             getLabel getLinkColor getTextColor (ls ! i) k"
proof -
  have "useArcLinkLabels d skA offA dl sl toA getLabel getLinkColor getTextColor ! i =
          labelExtraProps (case toA of None \<Rightarrow> 0 | Some v \<Rightarrow> v)
             getLabel getLinkColor getTextColor (ls ! i) ++ spreadLink (ls ! i)"
    using assms(1,2) by (simp add: useArcLinkLabels_def useArcLinks_unfold)
  moreover have "spreadLink (ls ! i) k
                   = (None :: ('a DatumWithArc_scheme, LabelValue) PropValue option)"
    using assms(3) by (auto simp: spreadLink_def)
  ultimately show ?thesis
    by (simp add: map_add_def)
qed

section \<open>Degenerate inputs\<close>

text \<open>
  Section 8 of the spec: with \<open>offset = 0\<close>, \<open>diagonalLength = 0\<close> and
  \<open>straightLength = 0\<close> the three points coincide with the point on the outer radius
  at the bisecting angle. More generally: with \<open>diagonalLength = 0\<close> the first two
  points coincide; with \<open>straightLength = 0\<close> the last two points coincide; with a
  zero outer radius and no offset or length all three are the centre. The pipeline
  returns the empty array on the empty array, and on any array each element it
  returns has its \<^verbatim>\<open>side\<close>, \<^verbatim>\<open>points\<close> and \<^verbatim>\<open>data\<close>.

  The source has no \<^verbatim>\<open>throw\<close>, so the functions above have no error result. Whether
  finite doubles always give a result free of \<^verbatim>\<open>NaN\<close> is a question about IEEE
  arithmetic (a difference of two finite angles can overflow), outside this model of
  numbers as reals.
\<close>

lemma computeArcLink_useArcLinks_degenerate:
  "points1 (points (computeArcLink a off 0 sl)) = points0 (points (computeArcLink a off 0 sl))
   \<and> points2 (points (computeArcLink a off dl 0)) = points1 (points (computeArcLink a off dl 0))
   \<and> points (computeArcLink a off 0 0) =
      (let p = positionFromAngle
                 (getNormalizedAngle (startAngle a + (endAngle a - startAngle a) / 2 - pi / 2))
                 (outerRadius a + off)
       in (p, p, p))
   \<and> (outerRadius a = 0 \<longrightarrow>
        points (computeArcLink a 0 0 0)
          = (\<lparr>x = 0, y = 0\<rparr>, \<lparr>x = 0, y = 0\<rparr>, \<lparr>x = 0, y = 0\<rparr>))
   \<and> useArcLinks [] skA offA dl sl cepA = []
   \<and> (\<forall>e \<in> set (useArcLinks d skA offA dl sl cepA).
         {''side'', ''points'', ''data''} \<subseteq> dom e)"
proof (intro conjI impI ballI)
  show "points (computeArcLink a off 0 0) =
      (let p = positionFromAngle
                 (getNormalizedAngle (startAngle a + (endAngle a - startAngle a) / 2 - pi / 2))
                 (outerRadius a + off)
       in (p, p, p))"
    by (simp add: computeArcLink_points Let_def)
  show "points1 (points (computeArcLink a off 0 sl))
          = points0 (points (computeArcLink a off 0 sl))"
    by (simp add: computeArcLink_points Let_def points0_def points1_def)
  show "points2 (points (computeArcLink a off dl 0))
          = points1 (points (computeArcLink a off dl 0))"
    by (simp add: computeArcLink_points Let_def points2_def points1_def)
  show "points (computeArcLink a 0 0 0)
          = (\<lparr>x = 0, y = 0\<rparr>, \<lparr>x = 0, y = 0\<rparr>, \<lparr>x = 0, y = 0\<rparr>)"
    if "outerRadius a = 0"
    using that by (simp add: computeArcLink_points Let_def positionFromAngle_def)
  show "useArcLinks [] skA offA dl sl cepA = []"
    by (simp add: useArcLinks_unfold links_def)
  show "{''side'', ''points'', ''data''} \<subseteq> dom e"
    if "e \<in> set (useArcLinks d skA offA dl sl cepA)" for e
    using that by (auto simp: useArcLinks_unfold spreadLink_def)
qed

text \<open>
  The arc with all four fields \<open>0\<close> and all lengths \<open>0\<close>: the three points are the
  centre, and the pipeline returns one element, with its three properties.
\<close>

lemma computeArcLink_useArcLinks_degenerate_example:
  "(let zero = \<lparr>startAngle = 0, endAngle = 0, innerRadius = 0, outerRadius = 0\<rparr>;
        out = (useArcLinks [\<lparr>arc = zero\<rparr>] None None 0 0 None
                 :: (DatumWithArc, unit) Props list)
    in points (computeArcLink zero 0 0 0)
         = (\<lparr>x = 0, y = 0\<rparr>, \<lparr>x = 0, y = 0\<rparr>, \<lparr>x = 0, y = 0\<rparr>)
       \<and> length out = 1
       \<and> {''side'', ''points'', ''data''} \<subseteq> dom (out ! 0))"
proof -
  define zero where "zero = \<lparr>startAngle = 0, endAngle = 0, innerRadius = 0, outerRadius = 0\<rparr>"
  define out :: "(DatumWithArc, unit) Props list" where
    "out = useArcLinks [\<lparr>arc = zero\<rparr>] None None 0 0 None"
  note c = computeArcLink_useArcLinks_degenerate
             [where a = zero and d = "[\<lparr>arc = zero\<rparr>]" and skA = None and offA = None
                and dl = 0 and sl = 0
                and cepA = "None :: (DatumWithArc ArcLinkWithDatum
                                       \<Rightarrow> (DatumWithArc, unit) Props) option"]
  have z: "outerRadius zero = 0" by (simp add: zero_def)
  from c z have p: "points (computeArcLink zero 0 0 0)
         = (\<lparr>x = 0, y = 0\<rparr>, \<lparr>x = 0, y = 0\<rparr>, \<lparr>x = 0, y = 0\<rparr>)"
    by blast
  have len: "length out = 1"
    unfolding out_def
    by (simp add: length_useArcLinks zero_def radiansToDegrees_def)
  then have "out ! 0 \<in> set out" by simp
  with c have "{''side'', ''points'', ''data''} \<subseteq> dom (out ! 0)"
    unfolding out_def by blast
  with p len show ?thesis
    by (simp add: Let_def zero_def out_def)
qed

end
